theory Spec2Isabelle
  imports Main "HOL-Library.Sublist" "HOL-Library.AList"
begin

section \<open>Strings\<close>

text \<open>
  Python strings are modelled as \<open>string\<close>. The regular expressions of \<open>main.py\<close> contain
  no metacharacter apart from one leading \<open>^\<close>, so \<open>re.search\<close> with such a pattern is
  a search for a literal substring: \<open>re_search pattern s\<close> holds when \<open>pattern\<close> occurs
  somewhere in \<open>s\<close>.
\<close>

fun re_search :: "string \<Rightarrow> string \<Rightarrow> bool" where
  "re_search pattern [] = (pattern = [])"
| "re_search pattern (c # cs) = (prefix pattern (c # cs) \<or> re_search pattern cs)"

text \<open>
  Characters are code points below 256. \<open>isspace\<close> is Python's \<open>str.isspace\<close> on that
  range; \<open>strip\<close> is \<open>str.strip()\<close>, \<open>join\<close> is \<open>sep.join(xs)\<close>, and \<open>split_ws\<close>
  yields the maximal runs of non-whitespace characters, which is how the HTML parser
  splits a \<open>class\<close> attribute into its class names.
\<close>

definition isspace :: "char \<Rightarrow> bool" where
  "isspace c = (c \<in> set [CHR 0x09, CHR 0x0A, CHR 0x0B, CHR 0x0C, CHR 0x0D, CHR 0x1C, CHR 0x1D,
                          CHR 0x1E, CHR 0x1F, CHR 0x20, CHR 0x85, CHR 0xA0])"

definition strip :: "string \<Rightarrow> string" where
  "strip s = rev (dropWhile isspace (rev (dropWhile isspace s)))"

fun join :: "string \<Rightarrow> string list \<Rightarrow> string" where
  "join sep [] = []"
| "join sep [x] = x"
| "join sep (x # y # ys) = x @ sep @ join sep (y # ys)"

fun split_ws :: "string \<Rightarrow> string \<Rightarrow> string list" where
  "split_ws [] cur = (if cur = [] then [] else [cur])"
| "split_ws (c # cs) cur =
     (if isspace c then (if cur = [] then split_ws cs [] else cur # split_ws cs [])
      else split_ws cs (cur @ [c]))"

section \<open>URL classifier\<close>

definition exclude_patterns :: "string list" where
  "exclude_patterns =
     [''/wiki/Special:'', ''/wiki/Help:'', ''/wiki/Wikipedia:'', ''/wiki/Portal:'',
      ''/wiki/Category:'', ''/wiki/Template:'', ''/wiki/File:'', ''/wiki/Talk:'',
      ''/wiki/User:'', ''/wiki/Main_Page'']"

text \<open>The loop of \<open>is_valid_article\<close>: the first pattern found in the URL answers False.\<close>

fun is_valid_article_loop :: "string list \<Rightarrow> string \<Rightarrow> bool" where
  "is_valid_article_loop [] url = True"
| "is_valid_article_loop (pattern # patterns) url =
     (if re_search pattern url then False else is_valid_article_loop patterns url)"

definition is_valid_article :: "string \<Rightarrow> bool" where
  "is_valid_article url = is_valid_article_loop exclude_patterns url"

text \<open>
  The reading of the specification: an href is excluded when it begins with one of the
  namespace prefixes or with the main page's path.
\<close>

definition spec_excluded :: "string \<Rightarrow> bool" where
  "spec_excluded href = list_ex (\<lambda>p. prefix p href) exclude_patterns"

section \<open>Parsed documents\<close>

text \<open>
  \<open>main.py\<close> reads pages through BeautifulSoup. A parsed document is a forest of nodes. A
  \<open>Tag\<close> has a name, attributes and child nodes; \<open>NavigableString\<close> is a text node that
  \<open>get_text\<close> reads; \<open>Comment\<close> stands for the string nodes that \<open>get_text\<close> skips
  (comments, declarations, the bodies of scripts and stylesheets). String nodes have no
  name (\<open>.name\<close> is None) and no \<open>.children\<close>.
\<close>

datatype node =
    Tag (name: string) (attrs: "(string \<times> string) list") (contents: "node list")
  | NavigableString string
  | Comment string

text \<open>
  The exceptions of the model. All of them are derived from Python's \<open>Exception\<close>, the
  class that the \<open>except Exception\<close> clauses of \<open>main.py\<close> catch; \<open>OtherError\<close> is any
  further such exception, named by its class. \<open>KeyboardInterrupt\<close> and \<open>SystemExit\<close>, which
  those clauses let through, are no outcome of a request, of the parser or of the file
  system and have no place in the model.
\<close>

datatype exn =
    Timeout | ConnectionError | AttributeError | KeyError | FileNotFoundError
  | OtherError string

fun is_tag :: "node \<Rightarrow> bool" where
  "is_tag (Tag n a cs) = True"
| "is_tag (NavigableString s) = False"
| "is_tag (Comment s) = False"

text \<open>\<open>children\<close> is only applied to nodes returned by \<open>soup.find\<close>, which are tags.\<close>

fun children :: "node \<Rightarrow> node list" where
  "children (Tag n a cs) = cs"
| "children (NavigableString s) = []"
| "children (Comment s) = []"

text \<open>\<open>tag_get e key\<close> is the attribute \<open>key\<close> of \<open>e\<close>, None when \<open>e\<close> has none.\<close>

fun tag_get :: "node \<Rightarrow> string \<Rightarrow> string option" where
  "tag_get (Tag n a cs) key = map_of a key"
| "tag_get (NavigableString s) key = None"
| "tag_get (Comment s) key = None"

text \<open>\<open>has_name_in e names\<close> is the test \<open>e.name in names\<close>.\<close>

fun has_name_in :: "node \<Rightarrow> string list \<Rightarrow> bool" where
  "has_name_in (Tag n a cs) names = (n \<in> set names)"
| "has_name_in (NavigableString s) names = False"
| "has_name_in (Comment s) names = False"

text \<open>All nodes below a node, in document order.\<close>

fun descendants :: "node \<Rightarrow> node list" where
  "descendants (Tag n a cs) = concat (map (\<lambda>c. c # descendants c) cs)"
| "descendants (NavigableString s) = []"
| "descendants (Comment s) = []"

definition soup_descendants :: "node list \<Rightarrow> node list" where
  "soup_descendants soup = concat (map (\<lambda>c. c # descendants c) soup)"

fun strings_of :: "node list \<Rightarrow> string list" where
  "strings_of [] = []"
| "strings_of (Tag n a cs # es) = strings_of es"
| "strings_of (NavigableString s # es) = s # strings_of es"
| "strings_of (Comment s # es) = strings_of es"

text \<open>
  \<open>get_text\<close> is \<open>e.get_text()\<close> (also \<open>e.text\<close>): the text nodes below \<open>e\<close> put together.
  \<open>get_text_strip\<close> is \<open>e.get_text(strip=True)\<close>: each text node is stripped first, and
  those that become empty are left out.
\<close>

definition get_text :: "node \<Rightarrow> string" where
  "get_text e = concat (strings_of (descendants e))"

definition get_text_strip :: "node \<Rightarrow> string" where
  "get_text_strip e = concat (filter (\<lambda>s. s \<noteq> []) (map strip (strings_of (descendants e))))"

text \<open>\<open>soup.find\<close> and \<open>soup.find_all\<close> with a matching test on nodes.\<close>

definition soup_find :: "(node \<Rightarrow> bool) \<Rightarrow> node list \<Rightarrow> node option" where
  "soup_find match soup =
     (case filter match (soup_descendants soup) of [] \<Rightarrow> None | e # es \<Rightarrow> Some e)"

definition soup_find_all :: "(node \<Rightarrow> bool) \<Rightarrow> node list \<Rightarrow> node list" where
  "soup_find_all match soup = filter match (soup_descendants soup)"

definition find_all_name :: "string \<Rightarrow> node \<Rightarrow> node list" where
  "find_all_name nm e = filter (\<lambda>d. has_name_in d [nm]) (descendants e)"

text \<open>The three searches of \<open>main.py\<close>: \<open>h1\<close> with id \<open>firstHeading\<close>, \<open>div\<close> with
  class \<open>mw-parser-output\<close>, and \<open>a\<close> whose href matches \<open>^/wiki/\<close>.\<close>

definition is_firstHeading :: "node \<Rightarrow> bool" where
  "is_firstHeading e = (has_name_in e [''h1''] \<and> tag_get e ''id'' = Some ''firstHeading'')"

definition is_parser_output :: "node \<Rightarrow> bool" where
  "is_parser_output e =
     (has_name_in e [''div''] \<and>
      (case tag_get e ''class'' of None \<Rightarrow> False
       | Some v \<Rightarrow> ''mw-parser-output'' \<in> set (split_ws v [])))"

definition is_wiki_anchor :: "node \<Rightarrow> bool" where
  "is_wiki_anchor e =
     (has_name_in e [''a''] \<and>
      (case tag_get e ''href'' of None \<Rightarrow> False | Some h \<Rightarrow> prefix ''/wiki/'' h))"

section \<open>Network and console\<close>

text \<open>
  A request either raises or yields a response: its status code and its body as the HTML
  parser reads it. \<open>requests.get\<close> raises on a timeout and on a connection error, and it
  returns the response whatever its status code. The network is any function from the
  number of requests made so far and the URL to the outcome, so that the same URL can
  answer differently each time. \<open>print\<close> appends an event to the console output. The delay
  before a request is not modelled.
\<close>

datatype response = Raises exn | Response nat "node list"

type_synonym network = "nat \<Rightarrow> string \<Rightarrow> response"

datatype event =
    Prettify node
  | ExtractError string exn
  | LinksError string exn
  | Crawling string int nat
  | Saved nat string

record world =
  requests :: nat
  stdout :: "event list"

definition print :: "event \<Rightarrow> world \<Rightarrow> world" where
  "print e w = w\<lparr>stdout := stdout w @ [e]\<rparr>"

definition requests_get :: "network \<Rightarrow> string \<Rightarrow> world \<Rightarrow> response \<times> world" where
  "requests_get net u w = (net (requests w) u, w\<lparr>requests := Suc (requests w)\<rparr>)"

section \<open>Content extractor\<close>

text \<open>
  An article is the dictionary with keys \<open>url\<close>, \<open>title\<close>, \<open>content\<close>; a section is the
  dictionary with keys \<open>heading\<close>, \<open>content\<close>.
\<close>

record wiki_section =
  s_heading :: string
  s_content :: "string list"

record article =
  a_url :: string
  a_title :: string
  a_content :: "wiki_section list"

definition heading_names :: "string list" where
  "heading_names = [''h1'', ''h2'', ''h3'', ''h4'', ''h5'', ''h6'']"

fun sum_concat :: "(exn + string) list \<Rightarrow> exn + string" where
  "sum_concat [] = Inr []"
| "sum_concat (Inl e # rs) = Inl e"
| "sum_concat (Inr t # rs) = (case sum_concat rs of Inl e \<Rightarrow> Inl e | Inr u \<Rightarrow> Inr (t @ u))"

text \<open>
  The nested function \<open>extract_text\<close>. On a string node the tests on \<open>.name\<close> all fail and
  reading \<open>.children\<close> raises AttributeError; the recursion itself only descends into
  children that have a name.
\<close>

fun extract_text :: "node \<Rightarrow> exn + string" where
  "extract_text (NavigableString s) = Inl AttributeError"
| "extract_text (Comment s) = Inl AttributeError"
| "extract_text (Tag n a cs) =
     (if n \<in> set [''script'', ''style'', ''table'', ''figure''] then Inr ''''
      else if n = ''p'' then Inr (get_text_strip (Tag n a cs))
      else if n = ''ul'' then
        Inr (join ''\<newline>'' (map (\<lambda>li. ''- '' @ get_text_strip li) (find_all_name ''li'' (Tag n a cs))))
      else if n \<in> set heading_names then
        Inr (''\<newline>'' @ get_text_strip (Tag n a cs) @ ''\<newline>'')
      else sum_concat (map extract_text (filter is_tag cs)))"


text \<open>
  The loop over \<open>content_div.children\<close>, on the three variables \<open>content\<close>,
  \<open>current_heading\<close> and \<open>current_content\<close>. An exception leaves the loop.
\<close>

fun sections_loop ::
  "node list \<Rightarrow> wiki_section list \<times> string \<times> string list \<Rightarrow> exn + wiki_section list \<times> string \<times> string list"
where
  "sections_loop [] acc = Inr acc"
| "sections_loop (element # elements) (content, current_heading, current_content) =
     (if has_name_in element heading_names then
        sections_loop elements
          (if current_content \<noteq> []
           then (content @ [\<lparr>s_heading = current_heading, s_content = current_content\<rparr>],
                 get_text_strip element, [])
           else (content, get_text_strip element, current_content))
      else
        (case extract_text element of
           Inl e \<Rightarrow> Inl e
         | Inr text \<Rightarrow>
             sections_loop elements
               (content, current_heading,
                if strip text \<noteq> [] then current_content @ [text] else current_content)))"

text \<open>
  \<open>extract_article_content\<close>: every exception raised inside the \<open>try\<close> block is caught,
  reported and turned into None.
\<close>

definition extract_article_content ::
  "network \<Rightarrow> string \<Rightarrow> world \<Rightarrow> article option \<times> world"
where
  "extract_article_content net u w =
     (case requests_get net u w of
        (Raises e, w1) \<Rightarrow> (None, print (ExtractError u e) w1)
      | (Response status soup, w1) \<Rightarrow>
          (let title = (case soup_find is_firstHeading soup of
                          Some t \<Rightarrow> strip (get_text t)
                        | None \<Rightarrow> ''No Title'')
           in case soup_find is_parser_output soup of
                None \<Rightarrow> (None, w1)
              | Some content_div \<Rightarrow>
                  (let w2 = print (Prettify content_div) w1
                   in case sections_loop (children content_div) ([], title, []) of
                        Inl e \<Rightarrow> (None, print (ExtractError u e) w2)
                      | Inr (content, current_heading, current_content) \<Rightarrow>
                          (let content' =
                                 (if current_content \<noteq> []
                                  then content @ [\<lparr>s_heading = current_heading,
                                                   s_content = current_content\<rparr>]
                                  else content)
                           in if content' = [] then (None, w2)
                              else (Some \<lparr>a_url = u, a_title = title, a_content = content'\<rparr>, w2)))))"

section \<open>Link collector\<close>

text \<open>
  The list comprehension of \<open>get_all_links\<close>: \<open>link["href"]\<close> raises KeyError on a tag
  without that attribute.
\<close>

fun full_links :: "node list \<Rightarrow> exn + string list" where
  "full_links [] = Inr []"
| "full_links (link # links) =
     (case tag_get link ''href'' of
        None \<Rightarrow> Inl KeyError
      | Some h \<Rightarrow>
          (case full_links links of
             Inl e \<Rightarrow> Inl e
           | Inr r \<Rightarrow> Inr (if is_valid_article h then (''https://zh.wikipedia.org'' @ h) # r else r)))"

definition get_all_links :: "network \<Rightarrow> string \<Rightarrow> world \<Rightarrow> string list \<times> world" where
  "get_all_links net u w =
     (case requests_get net u w of
        (Raises e, w1) \<Rightarrow> ([], print (LinksError u e) w1)
      | (Response status soup, w1) \<Rightarrow>
          (case full_links (soup_find_all is_wiki_anchor soup) of
             Inl e \<Rightarrow> ([], print (LinksError u e) w1)
           | Inr links \<Rightarrow> (links, w1)))"

section \<open>Crawl controller\<close>

text \<open>
  The nested function \<open>crawl\<close> mutates \<open>visited\<close> and \<open>results\<close> of the enclosing call;
  here they travel in a state together with the world. \<open>results\<close> is a dictionary in
  insertion order. The call stack is not bounded in the model.
\<close>

record crawl_state =
  visited :: "string set"
  results :: "(string \<times> article) list"
  io :: world

function crawl ::
  "network \<Rightarrow> int \<Rightarrow> int \<Rightarrow> string \<Rightarrow> int \<Rightarrow> crawl_state \<Rightarrow> crawl_state"
where
  "crawl net depth max_urls current_url current_depth st =
     (if int (length (results st)) \<ge> max_urls \<or> current_depth > depth
         \<or> current_url \<in> visited st
      then st
      else
        (let st1 = st\<lparr>visited := insert current_url (visited st),
                       io := print (Crawling current_url current_depth (length (results st)))
                               (io st)\<rparr>;
             ex = extract_article_content net current_url (io st1);
             st2 = (case fst ex of
                      Some article_content \<Rightarrow>
                        st1\<lparr>results := AList.update current_url article_content (results st1),
                            io := snd ex\<rparr>
                    | None \<Rightarrow> st1\<lparr>io := snd ex\<rparr>);
             gl = get_all_links net current_url (io st2);
             st3 = st2\<lparr>io := snd gl\<rparr>
         in fold (\<lambda>link s.
                    if link \<notin> visited s \<and> int (length (results s)) < max_urls
                    then crawl net depth max_urls link (current_depth + 1) s
                    else s)
                 (fst gl) st3))"
  by pat_completeness auto
termination
  by (relation "measure (\<lambda>(net, depth, max_urls, current_url, current_depth, st).
                    nat (depth + 1 - current_depth))") auto

text \<open>
  \<open>scrape_state\<close> is the state when \<open>scrape_all_links_and_content\<close> returns, observed from
  a world with no request made and nothing printed; the function returns \<open>results\<close>.
\<close>

definition scrape_state :: "network \<Rightarrow> string \<Rightarrow> int \<Rightarrow> int \<Rightarrow> crawl_state" where
  "scrape_state net start_url depth max_urls =
     crawl net depth max_urls start_url 0
       \<lparr>visited = {}, results = [], io = \<lparr>requests = 0, stdout = []\<rparr>\<rparr>"

definition scrape_all_links_and_content ::
  "network \<Rightarrow> string \<Rightarrow> int \<Rightarrow> int \<Rightarrow> (string \<times> article) list" where
  "scrape_all_links_and_content net start_url depth max_urls =
     results (scrape_state net start_url depth max_urls)"

text \<open>The visits that the console output records, each with its depth.\<close>

fun visits :: "event list \<Rightarrow> (string \<times> int) list" where
  "visits [] = []"
| "visits (Crawling u d n # evs) = (u, d) # visits evs"
| "visits (ev # evs) = visits evs"

section \<open>Report writer\<close>

text \<open>
  A Python function that ends without a \<open>return\<close> statement returns None.
\<close>

datatype py_value = PyNone | PyInt int









section \<open>Auxiliary notions and example inputs\<close>

text \<open>
  \<open>sections_ok\<close>: every section has at least one paragraph entry, and no entry is blank.
\<close>

definition sections_ok :: "wiki_section list \<Rightarrow> bool" where
  "sections_ok cs =
     (\<forall>s \<in> set cs. s_content s \<noteq> [] \<and> (\<forall>p \<in> set (s_content s). strip p \<noteq> []))"

definition world0 :: world where
  "world0 = \<lparr>requests = 0, stdout = []\<rparr>"

text \<open>An error page that arrives with status 404 and carries a content container.\<close>

definition page_404 :: "node list" where
  "page_404 = [Tag ''div'' [(''class'', ''mw-parser-output'')]
                 [Tag ''p'' [] [NavigableString ''Not found'']]]"

definition net_404 :: network where
  "net_404 n u = Response 404 page_404"

definition net_200 :: network where
  "net_200 n u = Response 200 page_404"

definition net_timeout :: network where
  "net_timeout n u = Raises Timeout"

definition net_refused :: network where
  "net_refused n u = Raises ConnectionError"

text \<open>A page whose container holds a heading, a paragraph and a heading.\<close>

definition page_two_headings :: "node list" where
  "page_two_headings =
     [Tag ''h1'' [(''id'', ''firstHeading'')] [NavigableString ''Music''],
      Tag ''div'' [(''class'', ''mw-parser-output'')]
        [Tag ''h2'' [] [NavigableString ''History''],
         Tag ''p'' [] [NavigableString ''Music is old.''],
         Tag ''h2'' [] [NavigableString ''Legacy'']]]"

definition net_two_headings :: network where
  "net_two_headings n u = Response 200 page_two_headings"

text \<open>A page without the title element, and the title element that says \<open>No Title\<close>.\<close>

definition page_no_title :: "node list" where
  "page_no_title =
     [Tag ''div'' [(''class'', ''mw-parser-output'')]
        [Tag ''p'' [] [NavigableString ''Some text.'']]]"

definition net_no_title :: network where
  "net_no_title n u = Response 200 page_no_title"

definition default_title :: node where
  "default_title = Tag ''h1'' [(''id'', ''firstHeading'')] [NavigableString ''No Title'']"

definition net_default_title :: network where
  "net_default_title n u = Response 200 (default_title # page_no_title)"

text \<open>The hrefs of the anchors that \<open>get_all_links\<close> selects, in document order.\<close>

definition anchor_hrefs :: "node list \<Rightarrow> string list" where
  "anchor_hrefs soup = List.map_filter (\<lambda>l. tag_get l ''href'') (soup_find_all is_wiki_anchor soup)"

text \<open>A page with two anchors to the same article and one to a talk page.\<close>

definition page_dup :: "node list" where
  "page_dup =
     [Tag ''p'' []
        [Tag ''a'' [(''href'', ''/wiki/Music'')] [NavigableString ''music''],
         NavigableString '' and '',
         Tag ''a'' [(''href'', ''/wiki/Music'')] [NavigableString ''Music''],
         Tag ''a'' [(''href'', ''/wiki/Talk:Music'')] [NavigableString ''talk'']]]"

definition net_dup :: network where
  "net_dup n u = Response 200 page_dup"



text \<open>
  The two halves of the body of \<open>crawl\<close>: \<open>crawl_stops\<close> is the test that ends a branch,
  and \<open>visit\<close> is the work on one URL up to the loop over its links; it yields the links
  and the state in which the loop starts.
\<close>

definition crawl_stops :: "int \<Rightarrow> int \<Rightarrow> string \<Rightarrow> int \<Rightarrow> crawl_state \<Rightarrow> bool" where
  "crawl_stops depth max_urls current_url current_depth st =
     (int (length (results st)) \<ge> max_urls \<or> current_depth > depth \<or> current_url \<in> visited st)"

definition visit :: "network \<Rightarrow> string \<Rightarrow> int \<Rightarrow> crawl_state \<Rightarrow> string list \<times> crawl_state" where
  "visit net current_url current_depth st =
     (let st1 = st\<lparr>visited := insert current_url (visited st),
                   io := print (Crawling current_url current_depth (length (results st)))
                           (io st)\<rparr>;
          ex = extract_article_content net current_url (io st1);
          st2 = (case fst ex of
                   Some article_content \<Rightarrow>
                     st1\<lparr>results := AList.update current_url article_content (results st1),
                         io := snd ex\<rparr>
                 | None \<Rightarrow> st1\<lparr>io := snd ex\<rparr>);
          gl = get_all_links net current_url (io st2)
      in (fst gl, st2\<lparr>io := snd gl\<rparr>))"

text \<open>
  A site of two pages: every URL answers with the seed page, which links to \<open>/wiki/M\<close>,
  except that link's own URL, which answers with a page without links.
\<close>

definition page_seed :: "node list" where
  "page_seed =
     [Tag ''h1'' [(''id'', ''firstHeading'')] [NavigableString ''Seed''],
      Tag ''div'' [(''class'', ''mw-parser-output'')]
        [Tag ''p'' [] [NavigableString ''See '', Tag ''a'' [(''href'', ''/wiki/M'')] [NavigableString ''M'']]]]"

definition net_site :: network where
  "net_site n u = (if u = ''https://zh.wikipedia.org/wiki/M'' then Response 200 page_no_title
                   else Response 200 page_seed)"

section \<open>Properties of the URL classifier\<close>

lemma re_search_sublist: "re_search pattern s = sublist pattern s"
  by (induction s) (simp_all add: sublist_Cons_right)

lemma prefix_re_search: "prefix pattern s \<Longrightarrow> re_search pattern s"
  by (cases s) simp_all

lemma is_valid_article_loop_iff:
  "is_valid_article_loop ps url = (\<not> list_ex (\<lambda>p. re_search p url) ps)"
  by (induction ps) simp_all

lemma is_valid_article_iff:
  "is_valid_article url = (\<not> list_ex (\<lambda>p. sublist p url) exclude_patterns)"
  by (simp add: is_valid_article_def is_valid_article_loop_iff re_search_sublist)

lemma spec_excluded_imp_invalid: "spec_excluded url \<Longrightarrow> \<not> is_valid_article url"
  unfolding spec_excluded_def is_valid_article_iff list_ex_iff
  by (meson prefix_imp_sublist)

text \<open>
  C1 (as stated, refuted). The claim reads the exclusion as a test on the beginning of the
  href. The source searches each pattern anywhere in the href, so an href that begins with
  none of the excluded prefixes but contains one further on is classified as no article.
\<close>

theorem is_valid_article_prefix_counterexample:
  "\<not> spec_excluded ''/wiki/AC/wiki/User:DC'' \<and> \<not> is_valid_article ''/wiki/AC/wiki/User:DC''"
  by (simp add: spec_excluded_def is_valid_article_def exclude_patterns_def)

text \<open>
  C1 (amended). \<open>is_valid_article\<close> answers False exactly for the hrefs that contain one of
  the ten excluded patterns as a contiguous substring, and True for all others. So every
  href that begins with an excluded prefix is rejected, \<open>/wiki/Special:Search\<close> and
  \<open>/wiki/Talk:Music\<close> are rejected, and \<open>/wiki/Music\<close> is accepted.
\<close>

theorem is_valid_article_substring:
  "(is_valid_article url = (\<not> (\<exists>p \<in> set exclude_patterns. sublist p url)))
   \<and> (spec_excluded url \<longrightarrow> \<not> is_valid_article url)
   \<and> \<not> is_valid_article ''/wiki/Special:Search''
   \<and> is_valid_article ''/wiki/Music''
   \<and> \<not> is_valid_article ''/wiki/Talk:Music''"
proof -
  have "is_valid_article url = (\<not> (\<exists>p \<in> set exclude_patterns. sublist p url))"
    by (simp add: is_valid_article_iff list_ex_iff)
  moreover have "spec_excluded url \<longrightarrow> \<not> is_valid_article url"
    by (simp add: spec_excluded_imp_invalid)
  moreover have "\<not> is_valid_article ''/wiki/Special:Search''"
    by (simp add: is_valid_article_def exclude_patterns_def)
  moreover have "is_valid_article ''/wiki/Music''"
    by (simp add: is_valid_article_def exclude_patterns_def)
  moreover have "\<not> is_valid_article ''/wiki/Talk:Music''"
    by (simp add: is_valid_article_def exclude_patterns_def)
  ultimately show ?thesis by blast
qed

theorem is_valid_article_substring_witness:
  "spec_excluded ''/wiki/Category:Music'' \<and> \<not> is_valid_article ''/wiki/Category:Music''
   \<and> (\<exists>p \<in> set exclude_patterns. sublist p ''/wiki/Category:Music'')"
proof -
  have h: "spec_excluded ''/wiki/Category:Music''"
    by (simp add: spec_excluded_def exclude_patterns_def)
  show ?thesis
    using h is_valid_article_substring [of "''/wiki/Category:Music''"] by blast
qed

section \<open>Properties of the content extractor\<close>

lemma isspace_simps [simp]:
  "isspace c = (c = CHR 0x09 \<or> c = CHR 0x0A \<or> c = CHR 0x0B \<or> c = CHR 0x0C \<or> c = CHR 0x0D
     \<or> c = CHR 0x1C \<or> c = CHR 0x1D \<or> c = CHR 0x1E \<or> c = CHR 0x1F \<or> c = CHR 0x20
     \<or> c = CHR 0x85 \<or> c = CHR 0xA0)"
  by (simp add: isspace_def)

lemmas eval_defs = extract_article_content_def requests_get_def print_def
  soup_find_def soup_descendants_def is_firstHeading_def is_parser_output_def
  heading_names_def get_text_strip_def get_text_def strip_def Let_def world0_def

lemma sections_loop_ok:
  "sections_loop es (c, h, cc) = Inr (c', h', cc') \<Longrightarrow>
   sections_ok c \<Longrightarrow> (\<forall>p \<in> set cc. strip p \<noteq> []) \<Longrightarrow>
   sections_ok c' \<and> (\<forall>p \<in> set cc'. strip p \<noteq> [])"
proof (induction es arbitrary: c h cc)
  case Nil
  then show ?case by simp
next
  case (Cons e es)
  show ?case
  proof (cases "has_name_in e heading_names")
    case True
    show ?thesis
    proof (cases "cc = []")
      case True
      with Cons.prems \<open>has_name_in e heading_names\<close> have
        "sections_loop es (c, get_text_strip e, []) = Inr (c', h', cc')" by simp
      from Cons.IH [OF this] Cons.prems show ?thesis by simp
    next
      case False
      with Cons.prems \<open>has_name_in e heading_names\<close> have
        "sections_loop es (c @ [\<lparr>s_heading = h, s_content = cc\<rparr>], get_text_strip e, [])
           = Inr (c', h', cc')" by simp
      moreover have "sections_ok (c @ [\<lparr>s_heading = h, s_content = cc\<rparr>])"
        using Cons.prems False by (simp add: sections_ok_def)
      ultimately show ?thesis using Cons.IH by simp
    qed
  next
    case False
    with Cons.prems obtain tx where t: "extract_text e = Inr tx"
      and l: "sections_loop es (c, h, if strip tx \<noteq> [] then cc @ [tx] else cc)
                = Inr (c', h', cc')"
      by (auto split: sum.splits)
    have "\<forall>p \<in> set (if strip tx \<noteq> [] then cc @ [tx] else cc). strip p \<noteq> []"
      using Cons.prems by simp
    from Cons.IH [OF l Cons.prems(2) this] show ?thesis .
  qed
qed

lemma extract_article_content_cases:
  assumes "extract_article_content net u w = (Some a, w')"
  obtains status soup content_div c h cc where
    "net (requests w) u = Response status soup"
    "soup_find is_parser_output soup = Some content_div"
    "sections_loop (children content_div)
        ([], (case soup_find is_firstHeading soup of
                Some t \<Rightarrow> strip (get_text t) | None \<Rightarrow> ''No Title''), [])
       = Inr (c, h, cc)"
    "a = \<lparr>a_url = u,
         a_title = (case soup_find is_firstHeading soup of
                      Some t \<Rightarrow> strip (get_text t) | None \<Rightarrow> ''No Title''),
         a_content = (if cc \<noteq> [] then c @ [\<lparr>s_heading = h, s_content = cc\<rparr>] else c)\<rparr>"
    "(if cc \<noteq> [] then c @ [\<lparr>s_heading = h, s_content = cc\<rparr>] else c) \<noteq> []"
  using assms
  by (auto simp: extract_article_content_def requests_get_def Let_def
           split: response.splits option.splits sum.splits if_splits prod.splits)

lemma paragraph_text:
  "has_name_in p [''p''] \<Longrightarrow>
   extract_text p = Inr (get_text_strip p) \<and> \<not> has_name_in p heading_names"
  by (cases p) (simp_all add: heading_names_def)

lemma soup_find_default_title:
  "soup_find is_firstHeading (default_title # soup) = Some default_title"
  "soup_find is_parser_output (default_title # soup) = soup_find is_parser_output soup"
  "strip (get_text default_title) = ''No Title''"
  by (simp_all add: eval_defs default_title_def)

text \<open>
  C2 (as stated, refuted). For a container that holds a heading, a paragraph and a heading,
  the claim expects two sections, the second one empty. The source appends a section only
  when it has collected paragraphs, so the second heading leaves no section: the article
  has one section.
\<close>

theorem extract_two_headings_counterexample:
  "fst (extract_article_content net_two_headings ''u'' world0)
     = Some \<lparr>a_url = ''u'', a_title = ''Music'',
              a_content = [\<lparr>s_heading = ''History'', s_content = [''Music is old.'']\<rparr>]\<rparr>"
  by (simp add: eval_defs net_two_headings_def page_two_headings_def)

text \<open>
  C2 (amended). When the content container's children are exactly a heading, a paragraph
  and a heading, and the paragraph's text is not blank, \<open>extract_article_content\<close> produces
  an article with exactly one section: its heading is the first heading's text and its
  only entry is the paragraph's text. The second heading opens a section that is never
  emitted. When the paragraph is blank the result is None.
\<close>

theorem extract_two_headings:
  assumes "net (requests w) u = Response status soup"
    and "soup_find is_parser_output soup = Some content_div"
    and "children content_div = [h, p, h']"
    and "has_name_in h heading_names" and "has_name_in h' heading_names"
    and "has_name_in p [''p'']"
  shows "if strip (get_text_strip p) \<noteq> []
         then \<exists>a. fst (extract_article_content net u w) = Some a \<and> a_url a = u
                \<and> a_content a = [\<lparr>s_heading = get_text_strip h, s_content = [get_text_strip p]\<rparr>]
         else fst (extract_article_content net u w) = None"
  using assms paragraph_text [of p]
  by (simp add: extract_article_content_def requests_get_def print_def Let_def)

theorem extract_two_headings_witness:
  "\<exists>a. fst (extract_article_content net_two_headings ''u'' world0) = Some a \<and> a_url a = ''u''
      \<and> a_content a = [\<lparr>s_heading = ''History'', s_content = [''Music is old.'']\<rparr>]"
proof -
  have 1: "net_two_headings (requests world0) ''u'' = Response 200 page_two_headings"
    by (simp add: net_two_headings_def)
  have 2: "soup_find is_parser_output page_two_headings = Some (page_two_headings ! 1)"
    by (simp add: eval_defs page_two_headings_def)
  have 3: "children (page_two_headings ! 1) =
      [Tag ''h2'' [] [NavigableString ''History''],
       Tag ''p'' [] [NavigableString ''Music is old.''],
       Tag ''h2'' [] [NavigableString ''Legacy'']]"
    by (simp add: page_two_headings_def)
  have 4: "strip (get_text_strip (Tag ''p'' [] [NavigableString ''Music is old.''])) \<noteq> []"
    by (simp add: eval_defs)
  have 5: "get_text_strip (Tag ''h2'' [] [NavigableString ''History'']) = ''History''"
    "get_text_strip (Tag ''p'' [] [NavigableString ''Music is old.'']) = ''Music is old.''"
    by (simp_all add: eval_defs)
  show ?thesis
    using extract_two_headings
            [where net = net_two_headings and w = world0 and u = "''u''", OF 1 2 3]
      4 5 by (simp add: heading_names_def)
qed

text \<open>
  C3 (as stated, refuted). The claim counts a response with a status outside 2xx as a
  transport failure. The source never reads the status: the body of a 404 response is
  parsed like any other page, and here it yields an article and no diagnostic.
\<close>

theorem extract_non_2xx_counterexample:
  "extract_article_content net_404 ''u'' world0
     = (Some \<lparr>a_url = ''u'', a_title = ''No Title'',
               a_content = [\<lparr>s_heading = ''No Title'', s_content = [''Not found'']\<rparr>]\<rparr>,
        \<lparr>requests = 1, stdout = [Prettify (hd page_404)]\<rparr>)"
  by (simp add: eval_defs net_404_def page_404_def)

text \<open>
  C3 (amended). When the request ends in a timeout or in a connection error,
  \<open>extract_article_content\<close> returns None and prints one diagnostic that names the URL and
  the exception, and the exception goes no further: the call ends with that value. A
  response with a status outside 2xx is no failure: it is handled as a status 200
  response with the same body is.
\<close>

theorem extract_transport_failure:
  "(net (requests w) u = Raises e \<and> (e = Timeout \<or> e = ConnectionError) \<longrightarrow>
      extract_article_content net u w
        = (None, \<lparr>requests = Suc (requests w), stdout = stdout w @ [ExtractError u e]\<rparr>))
   \<and> (net (requests w) u = Response status soup \<and> net' (requests w) u = Response 200 soup \<longrightarrow>
      extract_article_content net u w = extract_article_content net' u w)"
  by (simp add: extract_article_content_def requests_get_def print_def)

theorem extract_transport_failure_witness:
  "net_timeout (requests world0) ''u'' = Raises Timeout
   \<and> net_refused (requests world0) ''u'' = Raises ConnectionError
   \<and> extract_article_content net_refused ''u'' world0
       = (None, \<lparr>requests = 1, stdout = [ExtractError ''u'' ConnectionError]\<rparr>)
   \<and> extract_article_content net_timeout ''u'' world0
       = (None, \<lparr>requests = 1, stdout = [ExtractError ''u'' Timeout]\<rparr>)
   \<and> net_404 (requests world0) ''u'' = Response 404 page_404
   \<and> net_200 (requests world0) ''u'' = Response 200 page_404
   \<and> extract_article_content net_404 ''u'' world0 = extract_article_content net_200 ''u'' world0"
proof -
  have 1: "net_timeout (requests world0) ''u'' = Raises Timeout"
    by (simp add: net_timeout_def)
  have 2: "net_404 (requests world0) ''u'' = Response 404 page_404"
    by (simp add: net_404_def)
  have 3: "net_200 (requests world0) ''u'' = Response 200 page_404"
    by (simp add: net_200_def)
  have 4: "requests world0 = 0" "stdout world0 = []"
    by (simp_all add: world0_def)
  have 5: "net_refused (requests world0) ''u'' = Raises ConnectionError"
    by (simp add: net_refused_def)
  show ?thesis
    using 1 2 3 4 5
      extract_transport_failure [where net = net_timeout and w = world0 and u = "''u''"
        and e = Timeout]
      extract_transport_failure [where net = net_refused and w = world0 and u = "''u''"
        and e = ConnectionError]
      extract_transport_failure [where net = net_404 and w = world0 and u = "''u''"
        and status = 404 and soup = page_404 and net' = net_200]
    by simp
qed

text \<open>
  C6 (as stated, refuted). The claim treats a missing title like a missing content
  container, with a null result. The source gives a page without the title element the
  title \<open>No Title\<close> and goes on: this page has no title element and yields an article.
\<close>

theorem extract_missing_title_counterexample:
  "soup_find is_firstHeading page_no_title = None \<and>
   fst (extract_article_content net_no_title ''u'' world0)
     = Some \<lparr>a_url = ''u'', a_title = ''No Title'',
              a_content = [\<lparr>s_heading = ''No Title'', s_content = [''Some text.'']\<rparr>]\<rparr>"
  by (simp add: eval_defs net_no_title_def page_no_title_def)

text \<open>
  C6 (amended). A missing title element is no failure: the page is extracted exactly as
  the same page with a title element whose text is \<open>No Title\<close> placed in front, and every
  article it yields has the title \<open>No Title\<close>. For such a page the result is None exactly
  when the content container is missing, or the loop over the container's children
  raises an exception, or the loop produces no section.
\<close>

theorem extract_missing_title:
  assumes "net (requests w) u = Response status soup"
    and "soup_find is_firstHeading soup = None"
    and "net' (requests w) u = Response status (default_title # soup)"
  shows "extract_article_content net u w = extract_article_content net' u w
         \<and> (\<forall>a. fst (extract_article_content net u w) = Some a \<longrightarrow> a_title a = ''No Title'')
         \<and> (fst (extract_article_content net u w) = None) =
             (case soup_find is_parser_output soup of
                None \<Rightarrow> True
              | Some content_div \<Rightarrow>
                  (case sections_loop (children content_div) ([], ''No Title'', []) of
                     Inl e \<Rightarrow> True
                   | Inr (content, current_heading, current_content) \<Rightarrow>
                       content = [] \<and> current_content = []))"
proof -
  have none: "(fst (extract_article_content net u w) = None) =
             (case soup_find is_parser_output soup of
                None \<Rightarrow> True
              | Some content_div \<Rightarrow>
                  (case sections_loop (children content_div) ([], ''No Title'', []) of
                     Inl e \<Rightarrow> True
                   | Inr (content, current_heading, current_content) \<Rightarrow>
                       content = [] \<and> current_content = []))"
    using assms(1,2)
    by (simp add: extract_article_content_def requests_get_def Let_def
          split: option.splits sum.splits prod.splits)
  have eq: "extract_article_content net u w = extract_article_content net' u w"
    using assms by (simp add: extract_article_content_def requests_get_def soup_find_default_title)
  have "a_title a = ''No Title''" if "fst (extract_article_content net u w) = Some a" for a
  proof -
    from that have
      "extract_article_content net u w = (Some a, snd (extract_article_content net u w))"
      by (metis prod.collapse)
    then show ?thesis using assms(1,2)
      by (elim extract_article_content_cases) simp
  qed
  with eq none show ?thesis by blast
qed

theorem extract_missing_title_witness:
  "extract_article_content net_no_title ''u'' world0
     = extract_article_content net_default_title ''u'' world0
   \<and> (\<exists>a. fst (extract_article_content net_no_title ''u'' world0) = Some a
          \<and> a_title a = ''No Title'')
   \<and> fst (extract_article_content net_no_title ''u'' world0) \<noteq> None
   \<and> sections_loop (children (hd page_no_title)) ([], ''No Title'', [])
       = Inr ([], ''No Title'', [''Some text.''])"
proof -
  have 5: "soup_find is_parser_output page_no_title = Some (hd page_no_title)"
    by (simp add: eval_defs page_no_title_def)
  have 6: "sections_loop (children (hd page_no_title)) ([], ''No Title'', [])
             = Inr ([], ''No Title'', [''Some text.''])"
    by (simp add: eval_defs page_no_title_def)
  have 1: "net_no_title (requests world0) ''u'' = Response 200 page_no_title"
    by (simp add: net_no_title_def)
  have 2: "soup_find is_firstHeading page_no_title = None"
    by (simp add: eval_defs page_no_title_def)
  have 3: "net_default_title (requests world0) ''u'' = Response 200 (default_title # page_no_title)"
    by (simp add: net_default_title_def)
  have 4: "\<exists>a. fst (extract_article_content net_no_title ''u'' world0) = Some a"
    by (simp add: eval_defs net_no_title_def page_no_title_def)
  show ?thesis
    using extract_missing_title
            [where net = net_no_title and w = world0 and u = "''u''"
               and net' = net_default_title, OF 1 2 3] 4 5 6
    by auto
qed

text \<open>
  C9. Every article that \<open>extract_article_content\<close> returns has at least one section, and
  every section of it has at least one paragraph entry; so a heading that is directly
  followed by another heading leaves no section.
\<close>

theorem extract_sections_nonempty:
  assumes "extract_article_content net u w = (Some a, w')"
  shows "a_content a \<noteq> [] \<and> (\<forall>s \<in> set (a_content a). s_content s \<noteq> [])"
proof -
  from assms obtain content_div c h cc t where
    l: "sections_loop (children content_div) ([], t, []) = Inr (c, h, cc)"
    and a: "a_content a = (if cc \<noteq> [] then c @ [\<lparr>s_heading = h, s_content = cc\<rparr>] else c)"
    and ne: "(if cc \<noteq> [] then c @ [\<lparr>s_heading = h, s_content = cc\<rparr>] else c) \<noteq> []"
    by (elim extract_article_content_cases) simp
  have "sections_ok c" using sections_loop_ok [OF l] by (simp add: sections_ok_def)
  then show ?thesis using a ne by (auto simp: sections_ok_def)
qed

theorem extract_sections_nonempty_witness:
  "extract_article_content net_two_headings ''u'' world0
     = (Some \<lparr>a_url = ''u'', a_title = ''Music'',
               a_content = [\<lparr>s_heading = ''History'', s_content = [''Music is old.'']\<rparr>]\<rparr>,
        \<lparr>requests = 1, stdout = [Prettify (page_two_headings ! 1)]\<rparr>)
   \<and> [\<lparr>s_heading = ''History'', s_content = [''Music is old.'']\<rparr>] \<noteq> []
   \<and> s_content \<lparr>s_heading = ''History'', s_content = [''Music is old.'']\<rparr> \<noteq> []"
proof -
  have 1: "extract_article_content net_two_headings ''u'' world0
     = (Some \<lparr>a_url = ''u'', a_title = ''Music'',
               a_content = [\<lparr>s_heading = ''History'', s_content = [''Music is old.'']\<rparr>]\<rparr>,
        \<lparr>requests = 1, stdout = [Prettify (page_two_headings ! 1)]\<rparr>)"
    by (simp add: eval_defs net_two_headings_def page_two_headings_def)
  show ?thesis
    using 1 extract_sections_nonempty [OF 1] by simp
qed

section \<open>Properties of the link collector\<close>

lemma full_links_anchors:
  "\<forall>l \<in> set ls. is_wiki_anchor l \<Longrightarrow>
   full_links ls = Inr (map ((@) ''https://zh.wikipedia.org'')
                          (filter is_valid_article (List.map_filter (\<lambda>l. tag_get l ''href'') ls)))
   \<and> length (List.map_filter (\<lambda>l. tag_get l ''href'') ls) = length ls"
proof (induction ls)
  case Nil
  then show ?case by (simp add: List.map_filter_simps)
next
  case (Cons l ls)
  then obtain h where "tag_get l ''href'' = Some h"
    by (auto simp: is_wiki_anchor_def split: option.splits)
  with Cons show ?case by (simp add: List.map_filter_simps)
qed

text \<open>
  C5 (as stated, refuted). The claim has \<open>get_all_links\<close> return a set in which duplicates
  collapse. The source returns the list built by the comprehension: a page with two
  anchors to the same article yields the same absolute URL twice.
\<close>

theorem get_all_links_duplicates_counterexample:
  "fst (get_all_links net_dup ''u'' world0)
     = [''https://zh.wikipedia.org/wiki/Music'', ''https://zh.wikipedia.org/wiki/Music'']"
  by (simp add: get_all_links_def requests_get_def net_dup_def page_dup_def soup_find_all_def
        soup_descendants_def is_wiki_anchor_def is_valid_article_def exclude_patterns_def world0_def)

text \<open>
  C5 (amended). \<open>get_all_links\<close> returns a list: for a page that was fetched, the absolute
  URLs of the qualifying hrefs in document order, one entry for each anchor whose href
  begins with \<open>/wiki/\<close> and passes \<open>is_valid_article\<close>, duplicates kept.
\<close>

theorem get_all_links_list:
  assumes "net (requests w) u = Response status soup"
  shows "fst (get_all_links net u w)
           = map ((@) ''https://zh.wikipedia.org'') (filter is_valid_article (anchor_hrefs soup))
         \<and> length (anchor_hrefs soup) = length (soup_find_all is_wiki_anchor soup)"
proof -
  have "\<forall>l \<in> set (soup_find_all is_wiki_anchor soup). is_wiki_anchor l"
    by (simp add: soup_find_all_def)
  from full_links_anchors [OF this] assms show ?thesis
    by (simp add: get_all_links_def requests_get_def anchor_hrefs_def)
qed

theorem get_all_links_list_witness:
  "fst (get_all_links net_dup ''u'' world0)
     = map ((@) ''https://zh.wikipedia.org'') (filter is_valid_article (anchor_hrefs page_dup))
   \<and> anchor_hrefs page_dup = [''/wiki/Music'', ''/wiki/Music'', ''/wiki/Talk:Music'']"
proof -
  have 1: "net_dup (requests world0) ''u'' = Response 200 page_dup"
    by (simp add: net_dup_def)
  have 2: "anchor_hrefs page_dup = [''/wiki/Music'', ''/wiki/Music'', ''/wiki/Talk:Music'']"
    by (simp add: anchor_hrefs_def page_dup_def soup_find_all_def soup_descendants_def
          is_wiki_anchor_def List.map_filter_simps)
  show ?thesis
    using get_all_links_list [where net = net_dup and w = world0 and u = "''u''", OF 1] 2
    by simp
qed

section \<open>Properties of the report writer\<close>










section \<open>Properties of the crawl controller\<close>

declare crawl.simps [simp del]

lemma crawl_unfold:
  "crawl net depth max_urls u d st =
     (if crawl_stops depth max_urls u d st then st
      else fold (\<lambda>link s.
                   if link \<notin> visited s \<and> int (length (results s)) < max_urls
                   then crawl net depth max_urls link (d + 1) s
                   else s)
                (fst (visit net u d st)) (snd (visit net u d st)))"
  by (subst crawl.simps) (simp add: visit_def crawl_stops_def Let_def)

lemma fold_invariant:
  "(\<And>x s. x \<in> set xs \<Longrightarrow> I s \<Longrightarrow> I (f x s)) \<Longrightarrow> I s \<Longrightarrow> I (fold f xs s)"
  by (induction xs arbitrary: s) simp_all

lemma crawl_invariant:
  assumes step: "\<And>u d st. I st \<Longrightarrow> Q d \<Longrightarrow> \<not> crawl_stops depth max_urls u d st
                   \<Longrightarrow> I (snd (visit net u d st))"
    and Q: "\<And>d. Q d \<Longrightarrow> Q (d + 1)"
  shows "I st \<Longrightarrow> Q d \<Longrightarrow> I (crawl net depth max_urls u d st)"
proof (induction "nat (depth + 1 - d)" arbitrary: u d st rule: less_induct)
  case less
  show ?case
  proof (cases "crawl_stops depth max_urls u d st")
    case True
    with less.prems show ?thesis by (simp add: crawl_unfold)
  next
    case False
    then have d: "d \<le> depth" by (simp add: crawl_stops_def)
    have I1: "I (snd (visit net u d st))"
      using step less.prems False by blast
    have "I (fold (\<lambda>link s.
                   if link \<notin> visited s \<and> int (length (results s)) < max_urls
                   then crawl net depth max_urls link (d + 1) s
                   else s)
                (fst (visit net u d st)) (snd (visit net u d st)))"
    proof (rule fold_invariant [where I = I, OF _ I1])
      fix x s assume s: "I s"
      have "nat (depth + 1 - (d + 1)) < nat (depth + 1 - d)" using d by simp
      from less.hyps [OF this s Q [OF less.prems(2)]]
      show "I (if x \<notin> visited s \<and> int (length (results s)) < max_urls
               then crawl net depth max_urls x (d + 1) s else s)"
        using s by simp
    qed
    with False show ?thesis by (simp add: crawl_unfold)
  qed
qed

lemma visits_append [simp]: "visits (xs @ ys) = visits xs @ visits ys"
  by (induction xs rule: visits.induct) simp_all

lemma extract_world:
  "requests (snd (extract_article_content net u w)) = Suc (requests w)"
  "visits (stdout (snd (extract_article_content net u w))) = visits (stdout w)"
  by (simp_all add: extract_article_content_def requests_get_def print_def Let_def
        split: response.splits option.splits sum.splits prod.splits)

lemma get_all_links_world:
  "requests (snd (get_all_links net u w)) = Suc (requests w)"
  "visits (stdout (snd (get_all_links net u w))) = visits (stdout w)"
  by (simp_all add: get_all_links_def requests_get_def print_def
        split: response.splits sum.splits)

lemma extract_url:
  "fst (extract_article_content net u w) = Some a \<Longrightarrow> a_url a = u"
  by (auto simp: extract_article_content_def requests_get_def Let_def
           split: response.splits option.splits sum.splits if_splits prod.splits)

lemma visit_visited: "visited (snd (visit net u d st)) = insert u (visited st)"
  by (simp add: visit_def Let_def split: option.splits)

lemma visit_results:
  "results (snd (visit net u d st)) =
     (case fst (extract_article_content net u
                  (print (Crawling u d (length (results st))) (io st))) of
        Some a \<Rightarrow> AList.update u a (results st)
      | None \<Rightarrow> results st)"
  by (simp add: visit_def Let_def split: option.splits)

lemma visit_visits:
  "visits (stdout (io (snd (visit net u d st)))) = visits (stdout (io st)) @ [(u, d)]"
  by (simp add: visit_def Let_def get_all_links_world extract_world print_def split: option.splits)

lemma visit_requests:
  "requests (io (snd (visit net u d st))) = requests (io st) + 2"
  by (simp add: visit_def Let_def get_all_links_world extract_world print_def split: option.splits)

lemma length_update_le: "length (AList.update k v al) \<le> Suc (length al)"
  by (induction al) simp_all

lemma set_update_subset: "set (AList.update k v al) \<subseteq> insert (k, v) (set al)"
  by (induction al) auto

lemmas crawl_eval = scrape_state_def crawl_unfold crawl_stops_def visit_def
  get_all_links_def soup_find_all_def is_wiki_anchor_def is_valid_article_def exclude_patterns_def
  net_site_def page_seed_def page_no_title_def eval_defs

lemma visits_site:
  "visits (stdout (io (scrape_state net_site ''s'' 1 5)))
     = [(''s'', 0), (''https://zh.wikipedia.org/wiki/M'', 1)]"
  by (simp add: crawl_eval)

lemma site_misc:
  "visited (scrape_state net_site ''s'' 1 5) = {''https://zh.wikipedia.org/wiki/M'', ''s''}"
  "requests (io (scrape_state net_site ''s'' 1 5)) = 4"
  "map fst (results (scrape_state net_site ''s'' 1 5))
     = [''s'', ''https://zh.wikipedia.org/wiki/M'']"
  "map (a_url \<circ> snd) (results (scrape_state net_site ''s'' 1 5))
     = [''s'', ''https://zh.wikipedia.org/wiki/M'']"
  by (simp_all add: crawl_eval)


text \<open>
  C4. For every network, seed URL and depth, and every positive \<open>max_urls\<close>, the mapping
  that \<open>scrape_all_links_and_content\<close> returns has at most \<open>max_urls\<close> entries.
\<close>

theorem crawl_result_bounded:
  assumes "0 < max_urls"
  shows "int (length (scrape_all_links_and_content net start_url depth max_urls)) \<le> max_urls"
proof -
  have "int (length (results (crawl net depth max_urls start_url 0 
          \<lparr>visited = {}, results = [], io = \<lparr>requests = 0, stdout = []\<rparr>\<rparr>))) \<le> max_urls"
  proof (rule crawl_invariant [where I = "\<lambda>s. int (length (results s)) \<le> max_urls"
                                 and Q = "\<lambda>d. True"])
    fix u d and st :: crawl_state
    assume "\<not> crawl_stops depth max_urls u d st"
    then have "int (length (results st)) < max_urls" by (simp add: crawl_stops_def)
    moreover have "length (results (snd (visit net u d st))) \<le> Suc (length (results st))"
      by (simp add: visit_results length_update_le split: option.splits)
    ultimately show "int (length (results (snd (visit net u d st)))) \<le> max_urls"
      by linarith
  qed (use assms in simp_all)
  then show ?thesis by (simp add: scrape_all_links_and_content_def scrape_state_def)
qed

theorem crawl_result_bounded_witness:
  "(0::int) < 5 \<and> length (scrape_all_links_and_content net_site ''s'' 1 5) = 2
   \<and> int (length (scrape_all_links_and_content net_site ''s'' 1 5)) \<le> 5"
proof -
  have 1: "(0::int) < 5" by simp
  have 2: "length (map fst (results (scrape_state net_site ''s'' 1 5))) = 2"
    by (simp only: site_misc) simp
  show ?thesis
    using crawl_result_bounded [OF 1, of net_site "''s''" 1] 2
    by (simp add: scrape_all_links_and_content_def)
qed

text \<open>
  C7. During a crawl every visit is at a depth between 0 and \<open>depth\<close>: the console output
  records each visit with its depth, the visited set holds exactly the URLs of the
  recorded visits, and the requests made are two for each recorded visit (one by the
  extraction, one by the link collection), so no URL is marked, extracted or
  link-collected at a depth greater than \<open>depth\<close>.
\<close>

theorem crawl_depth_bounded:
  "(\<forall>(u, d) \<in> set (visits (stdout (io (scrape_state net start_url depth max_urls)))).
       0 \<le> d \<and> d \<le> depth)
   \<and> visited (scrape_state net start_url depth max_urls)
       = fst ` set (visits (stdout (io (scrape_state net start_url depth max_urls))))
   \<and> requests (io (scrape_state net start_url depth max_urls))
       = 2 * length (visits (stdout (io (scrape_state net start_url depth max_urls))))"
proof -
  let ?I = "\<lambda>s. (\<forall>(u, d) \<in> set (visits (stdout (io s))). 0 \<le> d \<and> d \<le> depth)
              \<and> visited s = fst ` set (visits (stdout (io s)))
              \<and> requests (io s) = 2 * length (visits (stdout (io s)))"
  have "?I (crawl net depth max_urls start_url 0 
          \<lparr>visited = {}, results = [], io = \<lparr>requests = 0, stdout = []\<rparr>\<rparr>)"
  proof (rule crawl_invariant [where I = ?I and Q = "\<lambda>d. 0 \<le> d"])
    fix u d and st :: crawl_state
    assume "?I st" "0 \<le> d" "\<not> crawl_stops depth max_urls u d st"
    then show "?I (snd (visit net u d st))"
      by (simp add: visit_visits visit_visited visit_requests crawl_stops_def)
  qed simp_all
  then show ?thesis by (simp add: scrape_state_def)
qed

theorem crawl_depth_bounded_witness:
  "visits (stdout (io (scrape_state net_site ''s'' 1 5)))
     = [(''s'', 0), (''https://zh.wikipedia.org/wiki/M'', 1)]
   \<and> (0::int) \<le> 1 \<and> (1::int) \<le> 1
   \<and> visited (scrape_state net_site ''s'' 1 5) = {''https://zh.wikipedia.org/wiki/M'', ''s''}
   \<and> requests (io (scrape_state net_site ''s'' 1 5)) = 4"
  using crawl_depth_bounded [of net_site "''s''" 1 5] visits_site site_misc(1,2)
  by simp

text \<open>
  C10. Every article in the mapping that \<open>scrape_all_links_and_content\<close> returns is stored
  under its own URL: the \<open>url\<close> field of the article under key \<open>u\<close> is \<open>u\<close>.
\<close>

theorem crawl_result_urls:
  "\<forall>(u, a) \<in> set (scrape_all_links_and_content net start_url depth max_urls). a_url a = u"
proof -
  have "\<forall>(u, a) \<in> set (results (crawl net depth max_urls start_url 0 
          \<lparr>visited = {}, results = [], io = \<lparr>requests = 0, stdout = []\<rparr>\<rparr>)). a_url a = u"
  proof (rule crawl_invariant [where I = "\<lambda>s. \<forall>(u, a) \<in> set (results s). a_url a = u"
                                 and Q = "\<lambda>d. True"])
    fix u d and st :: crawl_state
    assume I: "\<forall>(u, a) \<in> set (results st). a_url a = u"
    show "\<forall>(u, a) \<in> set (results (snd (visit net u d st))). a_url a = u"
      using I set_update_subset [of u _ "results st"] extract_url
      by (fastforce simp: visit_results split: option.splits)
  qed simp_all
  then show ?thesis by (simp add: scrape_all_links_and_content_def scrape_state_def)
qed

theorem crawl_result_urls_witness:
  "map fst (scrape_all_links_and_content net_site ''s'' 1 5)
     = [''s'', ''https://zh.wikipedia.org/wiki/M'']
   \<and> map (a_url \<circ> snd) (scrape_all_links_and_content net_site ''s'' 1 5)
     = [''s'', ''https://zh.wikipedia.org/wiki/M'']"
  using crawl_result_urls [of net_site "''s''" 1 5] site_misc(3,4)
  by (simp add: scrape_all_links_and_content_def)

end
